theory Spec2Isabelle
  imports Complex_Main
begin

unbundle bit_operations_syntax

section \<open>The variational learner of \<open>learners/variational.py\<close>\<close>

text \<open>
  Python floats are modelled as \<^typ>\<open>real\<close> (exact arithmetic, no rounding), Python
  integers as \<^typ>\<open>int\<close>, sentence ids as \<^typ>\<open>nat\<close>.  Exceptions are values of
  \<open>py_error\<close>.  The weight vector is mutated in place by the source; the model passes
  it explicitly and returns it together with the exception that ended the call, if any,
  so that the writes made before an exception stay visible.
\<close>

datatype py_error = IndexError | KeyError | ValueError

subsection \<open>Grammar codec\<close>

text \<open>The loop of \<open>param_list_to_grammar\<close> over \<open>enumerate(params)\<close>.\<close>

fun param_list_loop :: "nat \<Rightarrow> (nat \<times> int) list \<Rightarrow> int \<Rightarrow> int" where
  "param_list_loop total_bits [] grammar = grammar"
| "param_list_loop total_bits ((bit_no, v) # rest) grammar =
     param_list_loop total_bits rest (grammar + v * 2 ^ (total_bits - bit_no - 1))"

definition param_list_to_grammar :: "int list \<Rightarrow> int" where
  "param_list_to_grammar params =
     param_list_loop (length params) (enumerate 0 params) 0"

text \<open>
  Modelled from the spec: \<open>get_param_value\<close> and \<open>toggled\<close> are imported from
  \<open>colag.colag\<close>, which is not among the sources.  The spec's codec reads a parameter
  "by extracting the bit at position" \<open>pos\<close> of the grammar id; the sampler's comment
  says \<open>toggled\<close> toggles that bit.  A negative bit position is outside the codec's
  domain (a Python shift by a negative count raises \<open>ValueError\<close>).
\<close>

definition get_param_value :: "nat \<Rightarrow> int \<Rightarrow> int" where
  "get_param_value pos grammar = (grammar div 2 ^ pos) mod 2"

definition toggled :: "int \<Rightarrow> int \<Rightarrow> py_error + int" where
  "toggled pos grammar =
     (if pos < 0 then Inl ValueError else Inr (grammar XOR 2 ^ nat pos))"

subsection \<open>The domain collaborator and the random source\<close>

text \<open>
  The domain is read-only: the parameter count, the legality test, the table from
  grammar ids to their sentences (a set in the source; a list here, since the harness
  turns it into a tuple to draw from), and the per-sentence annotation strings.
\<close>

record "domain" =
  num_params :: nat
  legal_grammar :: "int \<Rightarrow> bool"
  language :: "int \<rightharpoonup> nat list"
  sentence_irr :: "nat \<rightharpoonup> string"

text \<open>
  The process-wide generator of \<open>random\<close>: \<open>uniform r n\<close> is the value the \<open>n\<close>-th call
  of \<open>random.random()\<close> returns, \<open>pick r n\<close> the raw draw behind the \<open>n\<close>-th call of
  \<open>random.choice\<close>; the two counters say how many of each have been made.
\<close>

record rng =
  uniform :: "nat \<Rightarrow> real"
  pick :: "nat \<Rightarrow> nat"
  ucount :: nat
  pcount :: nat

definition random_random :: "rng \<Rightarrow> real \<times> rng" where
  "random_random r = (uniform r (ucount r), r\<lparr>ucount := Suc (ucount r)\<rparr>)"

definition choose_sentence :: "nat list \<Rightarrow> rng \<Rightarrow> (py_error + nat) \<times> rng" where
  "choose_sentence lang r =
     (if lang = [] then (Inl IndexError, r)
      else (Inr (lang ! (pick r (pcount r) mod length lang)),
            r\<lparr>pcount := Suc (pcount r)\<rparr>))"

subsection \<open>Learner core\<close>

text \<open>
  The four concrete subclasses of \<open>VariationalLearner\<close>.  (The base class itself, whose
  \<open>reward\<close> and \<open>punish\<close> raise \<open>NotImplementedError\<close>, is abstract.)
\<close>

datatype strategy =
  RewardOnlyLearner | RewardOnlyRelevantLearner | SkepticalRewardOnlyLearner
  | PunishOnlyLearner

record learner =
  l_domain :: "domain"
  l_strategy :: strategy
  learning_rate :: real
  weights :: "real list"

text \<open>\<open>Learner(domain)\<close>: the constructor with its default learning rate.\<close>

definition new_learner :: "strategy \<Rightarrow> domain \<Rightarrow> learner" where
  "new_learner s d =
     \<lparr>l_domain = d, l_strategy = s, learning_rate = 5 / 10000,
      weights = replicate (num_params d) (1 / 2)\<rparr>"

definition parses :: "domain \<Rightarrow> int \<Rightarrow> nat \<Rightarrow> py_error + bool" where
  "parses d grammar sentence =
     (case language d grammar of
        None \<Rightarrow> Inl KeyError
      | Some sentences \<Rightarrow> Inr (sentence \<in> set sentences))"

text \<open>The inner \<open>for index, w in enumerate(self.weights)\<close> of \<open>choose_grammar\<close>.\<close>

fun sample_bits :: "(nat \<times> real) list \<Rightarrow> int \<Rightarrow> rng \<Rightarrow> (py_error + int) \<times> rng" where
  "sample_bits [] grammar r = (Inr grammar, r)"
| "sample_bits ((index, w) # rest) grammar r =
     (let (u, r') = random_random r in
      if u < w then
        (case toggled (12 - int index) grammar of
           Inl e \<Rightarrow> (Inl e, r')
         | Inr grammar' \<Rightarrow> sample_bits rest grammar' r')
      else sample_bits rest grammar r')"

text \<open>
  The \<open>while not self.domain.legal_grammar(grammar)\<close> loop.  It starts from
  \<open>grammar = None\<close>, which is no grammar id, so the body runs at least once; it has no
  bound, and not returning is the value \<open>None\<close>.
\<close>

partial_function (option) choose_grammar ::
  "domain \<Rightarrow> real list \<Rightarrow> rng \<Rightarrow> ((py_error + int) \<times> rng) option" where
  "choose_grammar d ws r =
     (case sample_bits (enumerate 0 ws) 0 r of
        (Inl e, r') \<Rightarrow> Some (Inl e, r')
      | (Inr grammar, r') \<Rightarrow>
          if legal_grammar d grammar then Some (Inr grammar, r')
          else choose_grammar d ws r')"

declare choose_grammar.simps [code]

fun converged :: "real list \<Rightarrow> real \<Rightarrow> bool" where
  "converged [] threshold = True"
| "converged (w # ws) threshold =
     (if \<not> (1 - w < threshold) \<or> (w < threshold) then False
      else converged ws threshold)"



subsection \<open>Update strategies\<close>

text \<open>
  The block \<open>if val == 0: ... elif val == 1: ...\<close>, which the three \<open>reward\<close> methods
  share word for word: the bounded proportional update of \<open>self.weights[index]\<close>.
\<close>

definition update_weight :: "real \<Rightarrow> int \<Rightarrow> nat \<Rightarrow> real list \<Rightarrow> real list" where
  "update_weight rate val index ws =
     (let weight = ws ! index in
      if val = 0 then ws[index := ws ! index - rate * weight]
      else if val = 1 then ws[index := ws ! index + rate * (1 - weight)]
      else ws)"

text \<open>
  \<open>RewardOnlyLearner.reward\<close>: the loop over \<open>range(13)\<close>; reading
  \<open>self.weights[index]\<close> past the end raises \<open>IndexError\<close>.
\<close>

fun reward_only_loop ::
  "nat list \<Rightarrow> real \<Rightarrow> int \<Rightarrow> real list \<Rightarrow> real list \<times> py_error option" where
  "reward_only_loop [] rate h ws = (ws, None)"
| "reward_only_loop (index # rest) rate h ws =
     (let val = get_param_value (12 - index) h in
      if index < length ws
      then reward_only_loop rest rate h (update_weight rate val index ws)
      else (ws, Some IndexError))"

definition reward_only :: "real \<Rightarrow> int \<Rightarrow> real list \<Rightarrow> real list \<times> py_error option" where
  "reward_only rate h ws = reward_only_loop [0..<13] rate h ws"

text \<open>
  \<open>RewardOnlyRelevantLearner.reward\<close>: \<open>trigger_str[index]\<close> is read first and raises
  \<open>IndexError\<close> on a short annotation; \<open>~\<close> skips the parameter.
\<close>

fun relevant_loop ::
  "nat list \<Rightarrow> string \<Rightarrow> real \<Rightarrow> int \<Rightarrow> real list \<Rightarrow> real list \<times> py_error option" where
  "relevant_loop [] trigger_str rate h ws = (ws, None)"
| "relevant_loop (index # rest) trigger_str rate h ws =
     (if length trigger_str \<le> index then (ws, Some IndexError)
      else if trigger_str ! index = CHR ''~'' then relevant_loop rest trigger_str rate h ws
      else
        (let val = get_param_value (12 - index) h in
         if index < length ws
         then relevant_loop rest trigger_str rate h (update_weight rate val index ws)
         else (ws, Some IndexError)))"

definition reward_relevant ::
  "domain \<Rightarrow> real \<Rightarrow> int \<Rightarrow> nat \<Rightarrow> real list \<Rightarrow> real list \<times> py_error option" where
  "reward_relevant d rate h sentence ws =
     (case sentence_irr d sentence of
        None \<Rightarrow> (ws, Some KeyError)
      | Some trigger_str \<Rightarrow> relevant_loop [0..<13] trigger_str rate h ws)"

text \<open>
  \<open>SkepticalRewardOnlyLearner.reward\<close>: as above, with the rate of the step halved
  where the annotation is \<open>*\<close>.
\<close>

fun skeptical_loop ::
  "nat list \<Rightarrow> string \<Rightarrow> real \<Rightarrow> int \<Rightarrow> real list \<Rightarrow> real list \<times> py_error option" where
  "skeptical_loop [] trigger_str rate h ws = (ws, None)"
| "skeptical_loop (index # rest) trigger_str rate h ws =
     (if length trigger_str \<le> index then (ws, Some IndexError)
      else if trigger_str ! index = CHR ''~'' then skeptical_loop rest trigger_str rate h ws
      else
        (let learning_rate = rate;
             learning_rate =
               (if trigger_str ! index = CHR ''*'' then learning_rate / 2 else learning_rate);
             val = get_param_value (12 - index) h in
         if index < length ws
         then skeptical_loop rest trigger_str rate h (update_weight learning_rate val index ws)
         else (ws, Some IndexError)))"

definition reward_skeptical ::
  "domain \<Rightarrow> real \<Rightarrow> int \<Rightarrow> nat \<Rightarrow> real list \<Rightarrow> real list \<times> py_error option" where
  "reward_skeptical d rate h sentence ws =
     (case sentence_irr d sentence of
        None \<Rightarrow> (ws, Some KeyError)
      | Some trigger_str \<Rightarrow> skeptical_loop [0..<13] trigger_str rate h ws)"

text \<open>
  \<open>PunishOnlyLearner.punish\<close>: \<open>super().reward\<close> on the hypothesis with its low
  \<open>num_params\<close> bits flipped.
\<close>

definition punish_only :: "domain \<Rightarrow> real \<Rightarrow> int \<Rightarrow> real list \<Rightarrow> real list \<times> py_error option" where
  "punish_only d rate h ws =
     (let ones = 2 ^ num_params d - 1 in reward_only rate (h XOR ones) ws)"

text \<open>Method dispatch on the learner's class.\<close>

fun reward :: "learner \<Rightarrow> int \<Rightarrow> nat \<Rightarrow> learner \<times> py_error option" where
  "reward l h sentence =
     (case l_strategy l of
        RewardOnlyLearner \<Rightarrow>
          (let (ws, e) = reward_only (learning_rate l) h (weights l) in (l\<lparr>weights := ws\<rparr>, e))
      | RewardOnlyRelevantLearner \<Rightarrow>
          (let (ws, e) = reward_relevant (l_domain l) (learning_rate l) h sentence (weights l)
           in (l\<lparr>weights := ws\<rparr>, e))
      | SkepticalRewardOnlyLearner \<Rightarrow>
          (let (ws, e) = reward_skeptical (l_domain l) (learning_rate l) h sentence (weights l)
           in (l\<lparr>weights := ws\<rparr>, e))
      | PunishOnlyLearner \<Rightarrow> (l, None))"

fun punish :: "learner \<Rightarrow> int \<Rightarrow> nat \<Rightarrow> learner \<times> py_error option" where
  "punish l h sentence =
     (case l_strategy l of
        PunishOnlyLearner \<Rightarrow>
          (let (ws, e) = punish_only (l_domain l) (learning_rate l) h (weights l)
           in (l\<lparr>weights := ws\<rparr>, e))
      | _ \<Rightarrow> (l, None))"

definition consume :: "learner \<Rightarrow> nat \<Rightarrow> rng \<Rightarrow> (learner \<times> py_error option \<times> rng) option" where
  "consume l sentence r =
     (case choose_grammar (l_domain l) (weights l) r of
        None \<Rightarrow> None
      | Some (Inl e, r') \<Rightarrow> Some (l, Some e, r')
      | Some (Inr hypothesis_grammar, r') \<Rightarrow>
          (case parses (l_domain l) hypothesis_grammar sentence of
             Inl e \<Rightarrow> Some (l, Some e, r')
           | Inr True \<Rightarrow>
               (let (l', e) = reward l hypothesis_grammar sentence in Some (l', e, r'))
           | Inr False \<Rightarrow>
               (let (l', e) = punish l hypothesis_grammar sentence in Some (l', e, r'))))"

subsection \<open>Simulation harness\<close>

text \<open>
  \<open>learn_language\<close>: the local \<open>threshold = 0.02\<close> and the \<open>while\<close> loop.  (The local
  \<open>weights = [0.5] * 13\<close> is never read.)  The loop ends by convergence, by the
  \<open>break\<close>, or by an exception of \<open>choose_sentence\<close> or \<open>consume\<close>.
\<close>

definition threshold :: real where
  "threshold = 2 / 100"

function learn_loop ::
  "nat list \<Rightarrow> int \<Rightarrow> learner \<Rightarrow> rng \<Rightarrow> int \<Rightarrow> (learner \<times> (py_error + int) \<times> rng) option" where
  "learn_loop target_language iterations l r counter =
     (if \<not> converged (weights l) threshold then
        (case choose_sentence target_language r of
           (Inl e, r1) \<Rightarrow> Some (l, Inl e, r1)
         | (Inr sentence, r1) \<Rightarrow>
             (case consume l sentence r1 of
                None \<Rightarrow> None
              | Some (l', Some e, r2) \<Rightarrow> Some (l', Inl e, r2)
              | Some (l', None, r2) \<Rightarrow>
                  if counter \<ge> iterations then Some (l', Inr counter, r2)
                  else learn_loop target_language iterations l' r2 (counter + 1)))
      else Some (l, Inr counter, r))"
  by pat_completeness auto
termination
  by (relation "measure (\<lambda>(t, iterations, l, r, counter). nat (iterations - counter))") auto

definition learn_language ::
  "learner \<Rightarrow> nat list \<Rightarrow> int \<Rightarrow> rng \<Rightarrow> (learner \<times> (py_error + int) \<times> rng) option" where
  "learn_language l target_language iterations r =
     learn_loop target_language iterations l r 0"






subsection \<open>Example inputs\<close>

text \<open>
  A 13-parameter domain with two legal grammars, all parameters off (0) and all on
  (8191).  Sentence 1 is in both languages, sentence 2 only in the second.  In the
  annotation of sentence 1 parameter 0 is irrelevant and parameter 1 ambiguous.
\<close>

definition example_domain :: "domain" where
  "example_domain =
     \<lparr>num_params = 13,
      legal_grammar = (\<lambda>g. g = 0 \<or> g = 8191),
      language = [0 \<mapsto> [1], 8191 \<mapsto> [1, 2]],
      sentence_irr = [1 \<mapsto> ''~*11111111111'', 2 \<mapsto> ''1111111111111'']\<rparr>"

text \<open>A random source whose every draw is 0: each coin flip of a positive weight succeeds.\<close>

definition zero_rng :: rng where
  "zero_rng = \<lparr>uniform = (\<lambda>n. 0), pick = (\<lambda>n. 0), ucount = 0, pcount = 0\<rparr>"


text \<open>
  The module docstring's "3-parameter domain", with every grammar legal and sentence 1
  in every language; and a 14-parameter domain of the same kind.
\<close>

definition three_param_domain :: "domain" where
  "three_param_domain =
     \<lparr>num_params = 3, legal_grammar = (\<lambda>g. True), language = (\<lambda>g. Some [1]),
      sentence_irr = [1 \<mapsto> ''111'']\<rparr>"

definition wide_domain :: "domain" where
  "wide_domain =
     \<lparr>num_params = 14, legal_grammar = (\<lambda>g. True), language = (\<lambda>g. Some [1]),
      sentence_irr = [1 \<mapsto> ''11111111111111'']\<rparr>"

text \<open>The first draw is 0, all later ones 0.9: only the first coin flip succeeds.\<close>

definition first_only_rng :: rng where
  "first_only_rng =
     \<lparr>uniform = (\<lambda>n. if n = 0 then 0 else 9 / 10), pick = (\<lambda>n. 0),
      ucount = 0, pcount = 0\<rparr>"

section \<open>Properties\<close>

subsection \<open>The codec is big-endian\<close>

lemma param_list_loop_enumerate:
  "k + length xs = tb \<Longrightarrow>
   param_list_loop tb (enumerate k xs) acc = acc + param_list_to_grammar xs"
proof (induction xs arbitrary: k acc tb)
  case Nil
  then show ?case by (simp add: param_list_to_grammar_def)
next
  case (Cons x xs)
  have a: "param_list_loop tb (enumerate (Suc k) xs) (acc + x * 2 ^ length xs)
      = acc + x * 2 ^ length xs + param_list_to_grammar xs"
    using Cons.prems by (intro Cons.IH) simp
  have b: "param_list_loop (Suc (length xs)) (enumerate (Suc 0) xs) (x * 2 ^ length xs)
      = x * 2 ^ length xs + param_list_to_grammar xs"
    by (intro Cons.IH) simp
  have tk: "tb - k - 1 = length xs" using Cons.prems by simp
  show ?case
    using a b tk by (simp add: param_list_to_grammar_def)
qed

lemma param_list_to_grammar_Cons:
  "param_list_to_grammar (x # xs) = x * 2 ^ length xs + param_list_to_grammar xs"
  using param_list_loop_enumerate [of "Suc 0" xs "Suc (length xs)" "x * 2 ^ length xs"]
  by (simp add: param_list_to_grammar_def)

lemma param_list_to_grammar_bounds:
  "set xs \<subseteq> {0, 1} \<Longrightarrow>
   0 \<le> param_list_to_grammar xs \<and> param_list_to_grammar xs < 2 ^ length xs"
proof (induction xs)
  case Nil
  then show ?case by (simp add: param_list_to_grammar_def)
next
  case (Cons x xs)
  then have "x = 0 \<or> x = 1" by simp
  then show ?case using Cons by (auto simp: param_list_to_grammar_Cons)
qed

lemma get_param_value_top:
  "0 \<le> r \<Longrightarrow> r < 2 ^ n \<Longrightarrow> x = 0 \<or> x = 1 \<Longrightarrow>
   get_param_value n (x * 2 ^ n + r) = x"
  by (auto simp: get_param_value_def)

lemma get_param_value_below:
  assumes "p < n"
  shows "get_param_value p (x * 2 ^ n + r) = get_param_value p r"
proof -
  from assms obtain k where n: "n = p + Suc k"
    by (metis less_iff_Suc_add add_Suc_right)
  have "x * 2 ^ n + r = r + (2 * (x * 2 ^ k)) * 2 ^ p"
    by (simp add: n power_add)
  moreover have "(r + (2 * (x * 2 ^ k)) * 2 ^ p) div 2 ^ p = 2 * (x * 2 ^ k) + r div 2 ^ p"
    by (rule div_mult_self1) simp
  ultimately have d: "(x * 2 ^ n + r) div 2 ^ p = 2 * (x * 2 ^ k) + r div 2 ^ p"
    by (simp only:)
  show ?thesis unfolding get_param_value_def d by (simp only: mod_mult_self4)
qed

lemma get_param_value_param_list_to_grammar:
  assumes "set vs \<subseteq> {0, 1}" and "i < length vs"
  shows "get_param_value (length vs - 1 - i) (param_list_to_grammar vs) = vs ! i"
  using assms
proof (induction vs arbitrary: i)
  case Nil
  then show ?case by simp
next
  case (Cons x xs)
  show ?case
  proof (cases i)
    case 0
    have "x = 0 \<or> x = 1" using Cons.prems by simp
    then show ?thesis
      using 0 param_list_to_grammar_bounds [of xs] Cons.prems
      by (simp add: param_list_to_grammar_Cons get_param_value_top)
  next
    case (Suc j)
    then have j: "j < length xs" using Cons.prems by simp
    have "length (x # xs) - 1 - i = length xs - 1 - j" using Suc by simp
    moreover have "length xs - 1 - j < length xs" using j by simp
    ultimately show ?thesis
      using Suc j Cons
      by (simp add: param_list_to_grammar_Cons get_param_value_below)
  qed
qed

text \<open>
  Claim C9.  For every sequence \<open>vs\<close> of bits and every index \<open>i\<close> below its length
  \<open>P\<close>, the bit at position \<open>P - 1 - i\<close> of \<open>param_list_to_grammar vs\<close> is \<open>vs ! i\<close> (and
  so is what \<open>get_param_value\<close> reads there): the sequence is read as a big-endian
  bitstring, parameter 0 most significant.
\<close>

theorem param_list_to_grammar_roundtrip:
  assumes "set vs \<subseteq> {0, 1}" and "i < length vs"
  shows "(param_list_to_grammar vs div 2 ^ (length vs - 1 - i)) mod 2 = vs ! i
       \<and> get_param_value (length vs - 1 - i) (param_list_to_grammar vs) = vs ! i"
  using get_param_value_param_list_to_grammar [OF assms]
  by (simp add: get_param_value_def)

theorem param_list_to_grammar_roundtrip_witness:
  "set [1, 0, 1 :: int] \<subseteq> {0, 1} \<and> (1 :: nat) < length [1, 0, 1 :: int]
   \<and> param_list_to_grammar [1, 0, 1] = 5
   \<and> (param_list_to_grammar [1, 0, 1] div 2 ^ (length [1, 0, 1 :: int] - 1 - 1)) mod 2 = 0"
  using param_list_to_grammar_roundtrip [of "[1, 0, 1]" 1]
  by (simp add: param_list_to_grammar_def enumerate_eq_zip upt_rec)

subsection \<open>Convergence\<close>

text \<open>
  What the loop of \<open>converged\<close> computes: every weight is strictly within the
  threshold of 1 and not below the threshold.
\<close>

theorem converged_holds_iff_all_near_one:
  "converged ws t = list_all (\<lambda>w. 1 - w < t \<and> \<not> w < t) ws"
  by (induction ws) auto

text \<open>
  Claim C1.  \<open>converged\<close> is claimed to hold as soon as every weight is within the
  threshold of 0 or of 1.  The single weight \<open>0.01\<close> is within \<open>0.02\<close> of 0, and the
  code answers \<open>False\<close>: its test \<open>not (1 - w < threshold) or (w < threshold)\<close> rejects
  every weight below the threshold.  The same happens at \<open>0.98\<close>, where \<open>1 - w\<close> is not
  strictly below \<open>0.02\<close>.
\<close>

theorem converged_rejects_weight_near_zero:
  "((1 / 100 :: real) < 2 / 100 \<or> 1 - (1 / 100 :: real) < 2 / 100)
   \<and> converged [1 / 100] (2 / 100) = False
   \<and> converged [1 / 100, 99 / 100] (2 / 100) = False
   \<and> converged [98 / 100] (2 / 100) = False
   \<and> converged [99 / 100] (2 / 100) = True"
  by simp

subsection \<open>The weights stay in the unit interval\<close>

lemma step_down_unit: "0 \<le> rate \<Longrightarrow> rate \<le> 1 \<Longrightarrow> 0 \<le> w \<Longrightarrow> w \<le> 1 \<Longrightarrow>
   0 \<le> w - rate * w \<and> w - rate * w \<le> (1::real)"
proof -
  assume a: "0 \<le> rate" "rate \<le> 1" "0 \<le> w" "w \<le> 1"
  have "w - rate * w = (1 - rate) * w" by (simp add: algebra_simps)
  moreover have "0 \<le> (1 - rate) * w" using a by simp
  moreover have "(1 - rate) * w \<le> 1 * 1" using a by (intro mult_mono) simp_all
  ultimately show ?thesis by simp
qed

lemma step_up_unit: "0 \<le> rate \<Longrightarrow> rate \<le> 1 \<Longrightarrow> 0 \<le> w \<Longrightarrow> w \<le> 1 \<Longrightarrow>
   0 \<le> w + rate * (1 - w) \<and> w + rate * (1 - w) \<le> (1::real)"
  using step_down_unit [of rate "1 - w"] by (simp add: algebra_simps)

lemma update_weight_length [simp]: "length (update_weight rate val index ws) = length ws"
  by (simp add: update_weight_def Let_def)

lemma update_weight_unit:
  assumes "0 \<le> rate" "rate \<le> 1" "index < length ws" "\<forall>w \<in> set ws. 0 \<le> w \<and> w \<le> 1"
  shows "\<forall>w \<in> set (update_weight rate val index ws). 0 \<le> w \<and> w \<le> 1"
proof -
  have w: "0 \<le> ws ! index" "ws ! index \<le> 1" using assms(3,4) by simp_all
  have upd: "\<forall>w \<in> set (ws[index := x]). 0 \<le> w \<and> w \<le> 1" if "0 \<le> x \<and> x \<le> 1" for x
    using that assms(4) set_update_subset_insert [of ws index x] by blast
  have down: "\<forall>w \<in> set (ws[index := ws ! index - rate * (ws ! index)]). 0 \<le> w \<and> w \<le> 1"
    by (rule upd, rule step_down_unit [OF assms(1,2) w])
  have up: "\<forall>w \<in> set (ws[index := ws ! index + rate * (1 - ws ! index)]). 0 \<le> w \<and> w \<le> 1"
    by (rule upd, rule step_up_unit [OF assms(1,2) w])
  consider "val = 0" | "val \<noteq> 0" "val = 1" | "val \<noteq> 0" "val \<noteq> 1" by blast
  then show ?thesis
  proof cases
    case 1
    then have "update_weight rate val index ws = ws[index := ws ! index - rate * (ws ! index)]"
      by (simp add: update_weight_def)
    then show ?thesis using down by (simp only:)
  next
    case 2
    then have "update_weight rate val index ws = ws[index := ws ! index + rate * (1 - ws ! index)]"
      by (simp add: update_weight_def)
    then show ?thesis using up by (simp only:)
  next
    case 3
    then have "update_weight rate val index ws = ws"
      by (simp add: update_weight_def)
    then show ?thesis using assms(4) by (simp only:)
  qed
qed

lemma reward_only_loop_unit:
  "0 \<le> rate \<Longrightarrow> rate \<le> 1 \<Longrightarrow> \<forall>w \<in> set ws. 0 \<le> w \<and> w \<le> 1 \<Longrightarrow>
   \<forall>w \<in> set (fst (reward_only_loop is rate h ws)). 0 \<le> w \<and> w \<le> 1"
proof (induction "is" arbitrary: ws)
  case Nil
  then show ?case by simp
next
  case (Cons index rest)
  show ?case
  proof (cases "index < length ws")
    case True
    then show ?thesis
      using Cons.IH [OF Cons.prems(1,2) update_weight_unit [OF Cons.prems(1,2) True Cons.prems(3)]]
      by simp
  next
    case False
    then show ?thesis using Cons.prems by simp
  qed
qed

lemma relevant_loop_unit:
  "0 \<le> rate \<Longrightarrow> rate \<le> 1 \<Longrightarrow> \<forall>w \<in> set ws. 0 \<le> w \<and> w \<le> 1 \<Longrightarrow>
   \<forall>w \<in> set (fst (relevant_loop is t rate h ws)). 0 \<le> w \<and> w \<le> 1"
proof (induction "is" arbitrary: ws)
  case Nil
  then show ?case by simp
next
  case (Cons index rest)
  show ?case
  proof (cases "index < length ws")
    case True
    then show ?thesis
      using Cons.IH [OF Cons.prems(1,2) update_weight_unit [OF Cons.prems(1,2) True Cons.prems(3)]]
        Cons.IH [OF Cons.prems] Cons.prems(3)
      by simp
  next
    case False
    then show ?thesis using Cons.prems Cons.IH [OF Cons.prems] by simp
  qed
qed

lemma skeptical_loop_unit:
  "0 \<le> rate \<Longrightarrow> rate \<le> 1 \<Longrightarrow> \<forall>w \<in> set ws. 0 \<le> w \<and> w \<le> 1 \<Longrightarrow>
   \<forall>w \<in> set (fst (skeptical_loop is t rate h ws)). 0 \<le> w \<and> w \<le> 1"
proof (induction "is" arbitrary: ws)
  case Nil
  then show ?case by simp
next
  case (Cons index rest)
  have half: "0 \<le> rate / 2" "rate / 2 \<le> 1" using Cons.prems by simp_all
  show ?case
  proof (cases "index < length ws")
    case True
    then show ?thesis
      using Cons.IH [OF Cons.prems(1,2) update_weight_unit [OF Cons.prems(1,2) True Cons.prems(3)]]
        Cons.IH [OF Cons.prems(1,2) update_weight_unit [OF half True Cons.prems(3)]]
        Cons.IH [OF Cons.prems] Cons.prems(3)
      by (simp add: Let_def)
  next
    case False
    then show ?thesis using Cons.prems Cons.IH [OF Cons.prems] by (simp add: Let_def)
  qed
qed

text \<open>
  Claim C2.  If every weight is in \<open>[0,1]\<close> and the learning rate is in \<open>[0,1]\<close>, then
  after \<open>reward\<close> and after \<open>punish\<close> of any of the four strategies every weight is in
  \<open>[0,1]\<close>, whatever the hypothesis and the sentence (also when the call ends in an
  exception).
\<close>

theorem reward_punish_keep_unit_interval:
  assumes "\<forall>w \<in> set (weights l). 0 \<le> w \<and> w \<le> 1"
    and "0 \<le> learning_rate l" and "learning_rate l \<le> 1"
  shows "(\<forall>w \<in> set (weights (fst (reward l h sentence))). 0 \<le> w \<and> w \<le> 1)
       \<and> (\<forall>w \<in> set (weights (fst (punish l h sentence))). 0 \<le> w \<and> w \<le> 1)"
proof -
  note u = assms(2,3,1)
  have a: "\<forall>w \<in> set (fst (reward_only (learning_rate l) x (weights l))). 0 \<le> w \<and> w \<le> 1" for x
    unfolding reward_only_def by (rule reward_only_loop_unit [OF u])
  have b: "\<forall>w \<in> set (fst (reward_relevant (l_domain l) (learning_rate l) h sentence (weights l))).
      0 \<le> w \<and> w \<le> 1"
    using relevant_loop_unit [OF u] assms(1)
    by (simp add: reward_relevant_def split: option.split)
  have c: "\<forall>w \<in> set (fst (reward_skeptical (l_domain l) (learning_rate l) h sentence (weights l))).
      0 \<le> w \<and> w \<le> 1"
    using skeptical_loop_unit [OF u] assms(1)
    by (simp add: reward_skeptical_def split: option.split)
  have d: "\<forall>w \<in> set (fst (punish_only (l_domain l) (learning_rate l) h (weights l))). 0 \<le> w \<and> w \<le> 1"
    using a by (simp add: punish_only_def Let_def)
  show ?thesis
    using a [of h] b c d assms(1)
    by (cases "l_strategy l") (simp_all add: split_beta)
qed

theorem reward_punish_keep_unit_interval_witness:
  "list_all (\<lambda>w. 0 \<le> w \<and> w \<le> 1) (weights (new_learner SkepticalRewardOnlyLearner example_domain))
   \<and> 0 \<le> learning_rate (new_learner SkepticalRewardOnlyLearner example_domain)
   \<and> learning_rate (new_learner SkepticalRewardOnlyLearner example_domain) \<le> 1
   \<and> list_all (\<lambda>w. 0 \<le> w \<and> w \<le> 1)
        (weights (fst (reward (new_learner SkepticalRewardOnlyLearner example_domain) 8191 1)))
   \<and> list_all (\<lambda>w. 0 \<le> w \<and> w \<le> 1)
        (weights (fst (punish (new_learner SkepticalRewardOnlyLearner example_domain) 8191 1)))"
proof -
  let ?l = "new_learner SkepticalRewardOnlyLearner example_domain"
  have h1: "\<forall>w \<in> set (weights ?l). 0 \<le> w \<and> w \<le> 1"
    by (simp add: new_learner_def example_domain_def)
  have h2: "0 \<le> learning_rate ?l" and h3: "learning_rate ?l \<le> 1"
    by (simp_all add: new_learner_def)
  from reward_punish_keep_unit_interval [OF h1 h2 h3, of 8191 1] h1 h2 h3
  show ?thesis unfolding list_all_iff by blast
qed

subsection \<open>Bit positions\<close>

text \<open>
  Claim C3.  The sampler and the strategies are claimed to use bit position \<open>P - 1 - i\<close>
  for parameter \<open>i\<close> for every \<open>P\<close>.  They use \<open>12 - index\<close> over \<open>range(13)\<close>, whatever
  \<open>num_params\<close> is.  In the 3-parameter domain of the module docstring, with only the
  first coin flip succeeding, the sampler returns \<open>2 ^ 12 = 4096\<close> where the codec
  encodes \<open>[1, 0, 0]\<close> as \<open>4\<close>; and rewarding the grammar \<open>010\<close> reads bits 12, 11 and 10
  (all 0), nudges all three weights down (the docstring says down, up, down: bit
  \<open>3 - 1 - 1\<close> of \<open>010\<close> is 1) and then raises \<open>IndexError\<close> at index 3.
\<close>

theorem hard_coded_bit_positions:
  "map_option fst
     (choose_grammar three_param_domain
        (weights (new_learner RewardOnlyLearner three_param_domain)) first_only_rng)
     = Some (Inr 4096)
   \<and> param_list_to_grammar [1, 0, 0] = 4
   \<and> weights (fst (reward (new_learner RewardOnlyLearner three_param_domain) 2 1))
       = [1999 / 4000, 1999 / 4000, 1999 / 4000]
   \<and> snd (reward (new_learner RewardOnlyLearner three_param_domain) 2 1) = Some IndexError
   \<and> get_param_value (3 - 1 - 1) 2 = 1"
  by code_simp

subsection \<open>Punishment as inverted reward\<close>

text \<open>
  Claim C4.  \<open>PunishOnlyLearner.punish\<close> on hypothesis \<open>h\<close> leaves exactly the weights
  (and raises exactly the exception) that \<open>RewardOnlyLearner.reward\<close> leaves on
  \<open>h XOR (2 ^ P - 1)\<close>, the hypothesis with its \<open>P = num_params\<close> low bits flipped; and
  \<open>PunishOnlyLearner.reward\<close> changes nothing.
\<close>

theorem punish_is_reward_of_complement:
  "weights (fst (punish (l\<lparr>l_strategy := PunishOnlyLearner\<rparr>) h sentence)) =
     weights (fst (reward (l\<lparr>l_strategy := RewardOnlyLearner\<rparr>)
                      (h XOR (2 ^ num_params (l_domain l) - 1)) sentence))
   \<and> snd (punish (l\<lparr>l_strategy := PunishOnlyLearner\<rparr>) h sentence) =
     snd (reward (l\<lparr>l_strategy := RewardOnlyLearner\<rparr>)
                      (h XOR (2 ^ num_params (l_domain l) - 1)) sentence)
   \<and> reward (l\<lparr>l_strategy := PunishOnlyLearner\<rparr>) h sentence
       = (l\<lparr>l_strategy := PunishOnlyLearner\<rparr>, None)"
  by (simp add: punish_only_def Let_def split_beta)

theorem punish_is_reward_of_complement_witness:
  "weights (fst (punish ((new_learner RewardOnlyLearner example_domain)
                           \<lparr>l_strategy := PunishOnlyLearner\<rparr>) 0 1))
     = replicate 13 (2001 / 4000)"
proof -
  let ?l = "new_learner RewardOnlyLearner example_domain"
  have e: "weights (fst (reward (?l\<lparr>l_strategy := RewardOnlyLearner\<rparr>)
                      (0 XOR (2 ^ num_params (l_domain ?l) - 1)) 1))
     = replicate 13 (2001 / 4000)"
    by code_simp
  from punish_is_reward_of_complement [of ?l 0 1]
  have "weights (fst (punish (?l\<lparr>l_strategy := PunishOnlyLearner\<rparr>) 0 1)) =
     weights (fst (reward (?l\<lparr>l_strategy := RewardOnlyLearner\<rparr>)
                      (0 XOR (2 ^ num_params (l_domain ?l) - 1)) 1))"
    by (rule conjunct1)
  then show ?thesis using e by (simp only:)
qed

subsection \<open>Relevance and ambiguity\<close>

lemma update_weight_nth:
  "i < length ws \<Longrightarrow>
   update_weight rate val j ws ! i =
     (if i = j then
        (if val = 0 then ws ! j - rate * (ws ! j)
         else if val = 1 then ws ! j + rate * (1 - ws ! j) else ws ! j)
      else ws ! i)"
  by (simp add: update_weight_def Let_def)

lemma update_weight_other: "i \<noteq> j \<Longrightarrow> update_weight rate val j ws ! i = ws ! i"
  by (simp add: update_weight_def Let_def)

lemma relevant_loop_frame:
  assumes "i < length t" and "t ! i = CHR ''~''"
  shows "fst (relevant_loop is t rate h ws) ! i = ws ! i"
  using assms
proof (induction "is" arbitrary: ws)
  case Nil
  then show ?case by simp
next
  case (Cons j rest)
  show ?case
  proof (cases "j = i")
    case True
    then show ?thesis using Cons by simp
  next
    case False
    then show ?thesis
      using Cons.IH [OF Cons.prems, of ws]
        Cons.IH [OF Cons.prems, of "update_weight rate (get_param_value (12 - j) h) j ws"]
      by (simp add: Let_def update_weight_other)
  qed
qed

lemma relevant_loop_effect:
  assumes "distinct is" and "\<forall>j \<in> set is. j < length ws \<and> j < length t"
  shows "snd (relevant_loop is t rate h ws) = None
       \<and> length (fst (relevant_loop is t rate h ws)) = length ws
       \<and> (\<forall>i < length ws. fst (relevant_loop is t rate h ws) ! i =
            (if i \<in> set is \<and> t ! i \<noteq> CHR ''~''
             then update_weight rate (get_param_value (12 - i) h) i ws ! i else ws ! i))"
  using assms
proof (induction "is" arbitrary: ws)
  case Nil
  then show ?case by simp
next
  case (Cons j rest)
  have d: "distinct rest" and jr: "j \<notin> set rest" using Cons.prems(1) by simp_all
  have j: "j < length ws" "j < length t" using Cons.prems(2) by simp_all
  show ?case
  proof (cases "t ! j = CHR ''~''")
    case True
    have e: "relevant_loop (j # rest) t rate h ws = relevant_loop rest t rate h ws"
      using True j by simp
    have b: "\<forall>j \<in> set rest. j < length ws \<and> j < length t" using Cons.prems(2) by simp
    show ?thesis
      unfolding e using Cons.IH [OF d b] True by auto
  next
    case False
    define ws' where "ws' = update_weight rate (get_param_value (12 - j) h) j ws"
    have e: "relevant_loop (j # rest) t rate h ws = relevant_loop rest t rate h ws'"
      using False j by (simp add: Let_def ws'_def)
    have b: "\<forall>j \<in> set rest. j < length ws' \<and> j < length t"
      using Cons.prems(2) by (simp add: ws'_def)
    have o: "ws' ! i = ws ! i" if "i \<noteq> j" for i
      using that by (simp add: ws'_def update_weight_other)
    have o2: "update_weight rate v i ws' ! i = update_weight rate v i ws ! i"
      if "i \<noteq> j" "i < length ws" for i v
      using that by (simp add: update_weight_nth o ws'_def)
    have l: "length ws' = length ws" by (simp add: ws'_def)
    note ih = Cons.IH [OF d b]
    have "fst (relevant_loop rest t rate h ws') ! i =
            (if i \<in> set (j # rest) \<and> t ! i \<noteq> CHR ''~''
             then update_weight rate (get_param_value (12 - i) h) i ws ! i else ws ! i)"
      if i: "i < length ws" for i
    proof (cases "i = j")
      case True
      have "fst (relevant_loop rest t rate h ws') ! j = ws' ! j"
        using ih i True jr l by simp
      then show ?thesis using True False by (simp add: ws'_def)
    next
      case ne: False
      have "fst (relevant_loop rest t rate h ws') ! i =
            (if i \<in> set rest \<and> t ! i \<noteq> CHR ''~''
             then update_weight rate (get_param_value (12 - i) h) i ws' ! i else ws' ! i)"
        using ih i l by simp
      then show ?thesis using ne o [OF ne] o2 [OF ne i] by simp
    qed
    then show ?thesis
      unfolding e using ih l by simp
  qed
qed

text \<open>
  Whatever the lengths of the weight vector and of the annotation, and also when the
  call ends in an exception, \<open>RewardOnlyRelevantLearner.reward\<close> leaves the weight of a
  parameter annotated \<open>~\<close> as it was.
\<close>

theorem relevant_reward_frame:
  assumes "sentence_irr (l_domain l) sentence = Some trigger_str"
    and "i < length trigger_str" and "trigger_str ! i = CHR ''~''"
  shows "weights (fst (reward (l\<lparr>l_strategy := RewardOnlyRelevantLearner\<rparr>) h sentence)) ! i
         = weights l ! i"
  using assms relevant_loop_frame [of i trigger_str "[0..<13]" "learning_rate l" h "weights l"]
  by (simp add: reward_relevant_def split_beta)

theorem relevant_reward_frame_witness:
  "sentence_irr (l_domain (new_learner RewardOnlyLearner example_domain)) 1
     = Some ''~*11111111111''
   \<and> (0 :: nat) < length ''~*11111111111'' \<and> ''~*11111111111'' ! 0 = CHR ''~''
   \<and> weights (fst (reward ((new_learner RewardOnlyLearner example_domain)
                              \<lparr>l_strategy := RewardOnlyRelevantLearner\<rparr>) 8191 1)) ! 0
       = weights (new_learner RewardOnlyLearner example_domain) ! 0"
proof -
  let ?l = "new_learner RewardOnlyLearner example_domain"
  have a: "sentence_irr (l_domain ?l) 1 = Some ''~*11111111111''"
    by (simp add: new_learner_def example_domain_def)
  have b: "(0 :: nat) < length ''~*11111111111''" and c: "''~*11111111111'' ! 0 = CHR ''~''"
    by simp_all
  from relevant_reward_frame [OF a b c, of 8191] a b c show ?thesis by blast
qed

text \<open>
  With 13 weights and an annotation of at least 13 symbols the call returns normally,
  and weight \<open>i\<close> is left alone if its symbol is \<open>~\<close> and otherwise gets the bounded
  proportional update for bit \<open>12 - i\<close> of the hypothesis.
\<close>

theorem relevant_reward_thirteen_parameters:
  assumes "sentence_irr (l_domain l) sentence = Some trigger_str"
    and "length (weights l) = 13" and "13 \<le> length trigger_str" and "i < 13"
  shows "snd (reward (l\<lparr>l_strategy := RewardOnlyRelevantLearner\<rparr>) h sentence) = None
       \<and> weights (fst (reward (l\<lparr>l_strategy := RewardOnlyRelevantLearner\<rparr>) h sentence)) ! i
         = (if trigger_str ! i = CHR ''~'' then weights l ! i
            else update_weight (learning_rate l) (get_param_value (12 - i) h) i (weights l) ! i)"
proof -
  have d: "distinct [0..<13]" by simp
  have b: "\<forall>j \<in> set [0..<13]. j < length (weights l) \<and> j < length trigger_str"
    using assms(2,3) by simp
  have i: "i < length (weights l)" "i \<in> set [0..<13]" using assms(2,4) by simp_all
  from relevant_loop_effect [OF d b, of "learning_rate l" h] i
  have "snd (relevant_loop [0..<13] trigger_str (learning_rate l) h (weights l)) = None
     \<and> fst (relevant_loop [0..<13] trigger_str (learning_rate l) h (weights l)) ! i
       = (if trigger_str ! i = CHR ''~'' then weights l ! i
          else update_weight (learning_rate l) (get_param_value (12 - i) h) i (weights l) ! i)"
    by simp
  then show ?thesis
    using assms(1) by (simp add: reward_relevant_def split_beta)
qed

theorem relevant_reward_thirteen_parameters_witness:
  "sentence_irr (l_domain (new_learner RewardOnlyLearner example_domain)) 1
     = Some ''~*11111111111''
   \<and> length (weights (new_learner RewardOnlyLearner example_domain)) = 13
   \<and> 13 \<le> length ''~*11111111111'' \<and> (2 :: nat) < 13
   \<and> ''~*11111111111'' ! 2 \<noteq> CHR ''~''
   \<and> weights (fst (reward ((new_learner RewardOnlyLearner example_domain)
                              \<lparr>l_strategy := RewardOnlyRelevantLearner\<rparr>) 8191 1)) ! 2
       = 2001 / 4000"
proof -
  let ?l = "new_learner RewardOnlyLearner example_domain"
  have a: "sentence_irr (l_domain ?l) 1 = Some ''~*11111111111''"
    and b: "length (weights ?l) = 13"
    by (simp_all add: new_learner_def example_domain_def)
  have c: "13 \<le> length ''~*11111111111''" and d: "(2 :: nat) < 13"
    and e: "''~*11111111111'' ! 2 \<noteq> CHR ''~''"
    by simp_all
  have v: "update_weight (learning_rate ?l) (get_param_value (12 - 2) 8191) 2 (weights ?l) ! 2
      = 2001 / 4000"
    by code_simp
  from relevant_reward_thirteen_parameters [OF a b c d, of 8191] e
  have "weights (fst (reward (?l\<lparr>l_strategy := RewardOnlyRelevantLearner\<rparr>) 8191 1)) ! 2
      = update_weight (learning_rate ?l) (get_param_value (12 - 2) 8191) 2 (weights ?l) ! 2"
    by simp
  then show ?thesis using a b c d e v by simp
qed

text \<open>
  Claim C7.  \<open>RewardOnlyRelevantLearner.reward\<close> is claimed to update every parameter
  that the annotation does not mark irrelevant.  Its loop runs over \<open>range(13)\<close>: in a
  14-parameter domain, with no parameter marked irrelevant and hypothesis 1, the call
  returns normally and weight 13 is still \<open>0.5\<close>, although parameter 13 is relevant and
  its hypothesis bit (position \<open>14 - 1 - 13 = 0\<close>) is 1.
\<close>

theorem relevant_reward_leaves_parameter_13:
  "sentence_irr wide_domain 1 = Some ''11111111111111''
   \<and> weights (new_learner RewardOnlyRelevantLearner wide_domain) = replicate 14 (1 / 2)
   \<and> weights (fst (reward (new_learner RewardOnlyRelevantLearner wide_domain) 1 1))
       = replicate 12 (1999 / 4000) @ [2001 / 4000, 1 / 2]
   \<and> snd (reward (new_learner RewardOnlyRelevantLearner wide_domain) 1 1) = None
   \<and> get_param_value (14 - 1 - 13) 1 = 1"
  by code_simp




subsection \<open>The harness\<close>

text \<open>Only \<open>choose_sentence\<close> advances the sentence counter of the random source.\<close>

lemma random_random_pcount: "pcount (snd (random_random r)) = pcount r"
  by (simp add: random_random_def)

lemma sample_bits_pcount: "pcount (snd (sample_bits xs g r)) = pcount r"
proof (induction xs arbitrary: g r)
  case Nil
  then show ?case by simp
next
  case (Cons x xs)
  obtain index w where x: "x = (index, w)" by (cases x)
  show ?case
    using Cons.IH
    by (simp add: x random_random_def split: sum.split)
qed

lemma choose_grammar_pcount:
  assumes "choose_grammar d ws r = Some y"
  shows "pcount (snd y) = pcount r"
  using assms
proof (induction rule: choose_grammar.raw_induct [rotated 1, consumes 1, case_names step])
  case (step cg d ws r y)
  obtain x r1 where s: "sample_bits (enumerate 0 ws) 0 r = (x, r1)" by force
  have p: "pcount r1 = pcount r" using sample_bits_pcount [of "enumerate 0 ws" 0 r] s by simp
  show ?case
  proof (cases x)
    case (Inl e)
    then show ?thesis using step(2) s p by auto
  next
    case (Inr g)
    show ?thesis
    proof (cases "legal_grammar d g")
      case True
      then show ?thesis using step(2) s p Inr by auto
    next
      case False
      then have "cg d ws r1 = Some y" using step(2) s Inr by simp
      from step(1) [OF this] show ?thesis using p by simp
    qed
  qed
qed

lemma consume_pcount:
  "consume l sentence r = Some (l', e, r') \<Longrightarrow> pcount r' = pcount r"
  by (auto simp: consume_def split_beta split: option.splits sum.splits bool.splits
      dest!: choose_grammar_pcount)


lemma choose_sentence_pcount:
  "choose_sentence lang r = (Inr sentence, r1) \<Longrightarrow> pcount r1 = Suc (pcount r)"
  by (auto simp: choose_sentence_def split: if_splits)

lemma learn_loop_pcount_mono:
  "learn_loop t n l r c = Some (l', res, r') \<Longrightarrow> pcount r \<le> pcount r'"
proof (induction t n l r c rule: learn_loop.induct)
  case (1 t n l r c)
  show ?case
  proof (cases "converged (weights l) threshold")
    case True
    then show ?thesis using 1(2) by simp
  next
    case False
    obtain x r1 where cs: "choose_sentence t r = (x, r1)" by force
    show ?thesis
    proof (cases x)
      case (Inl e)
      then show ?thesis using 1(2) False cs by (auto simp: choose_sentence_def split: if_splits)
    next
      case (Inr sentence)
      have p1: "pcount r1 = Suc (pcount r)" using choose_sentence_pcount cs Inr by simp
      show ?thesis
      proof (cases "consume l sentence r1")
        case None
        then show ?thesis using 1(2) False cs Inr by simp
      next
        case (Some y)
        obtain l2 e r2 where y: "y = (l2, e, r2)" by (cases y)
        have p2: "pcount r2 = pcount r1" using consume_pcount Some y by simp
        show ?thesis
        proof (cases e)
          case (Some err)
          then show ?thesis using 1(2) False cs Inr \<open>consume l sentence r1 = Some y\<close> y p1 p2
            by simp
        next
          case None
          show ?thesis
          proof (cases "c \<ge> n")
            case True
            then show ?thesis using 1(2) False cs Inr \<open>consume l sentence r1 = Some y\<close> y None p1 p2
              by simp
          next
            case ge: False
            have rec: "learn_loop t n l2 r2 (c + 1) = Some (l', res, r')"
              using 1(2) False cs Inr \<open>consume l sentence r1 = Some y\<close> y None ge by simp
            have "pcount r2 \<le> pcount r'"
              by (rule 1(1) [OF False cs [symmetric] Inr \<open>consume l sentence r1 = Some y\<close>
                    y [symmetric] refl None ge rec])
            then show ?thesis using p1 p2 by simp
          qed
        qed
      qed
    qed
  qed
qed


lemma learn_loop_returns_at_once:
  "(learn_loop t n l r c = Some (l, Inr c, r)) = converged (weights l) (2 / 100)"
proof (cases "converged (weights l) threshold")
  case True
  then show ?thesis by (simp add: threshold_def)
next
  case False
  have "learn_loop t n l r c \<noteq> Some (l, Inr c, r)"
  proof
    assume a: "learn_loop t n l r c = Some (l, Inr c, r)"
    obtain x r1 where cs: "choose_sentence t r = (x, r1)" by force
    show False
    proof (cases x)
      case (Inl e)
      then show ?thesis using a False cs by simp
    next
      case (Inr sentence)
      have p1: "pcount r1 = Suc (pcount r)" using choose_sentence_pcount cs Inr by simp
      show ?thesis
      proof (cases "consume l sentence r1")
        case None
        then show ?thesis using a False cs Inr by simp
      next
        case (Some y)
        obtain l2 e r2 where y: "y = (l2, e, r2)" by (cases y)
        have p2: "pcount r2 = pcount r1" using consume_pcount Some y by simp
        show ?thesis
        proof (cases e)
          case (Some err)
          then show ?thesis using a False cs Inr \<open>consume l sentence r1 = Some y\<close> y by simp
        next
          case None
          show ?thesis
          proof (cases "c \<ge> n")
            case True
            then show ?thesis
              using a False cs Inr \<open>consume l sentence r1 = Some y\<close> y None p1 p2 by auto
          next
            case ge: False
            have "learn_loop t n l2 r2 (c + 1) = Some (l, Inr c, r)"
              using a False cs Inr \<open>consume l sentence r1 = Some y\<close> y None ge by simp
            from learn_loop_pcount_mono [OF this] show ?thesis using p1 p2 by simp
          qed
        qed
      qed
    qed
  qed
  then show ?thesis using False by (simp add: threshold_def)
qed



text \<open>
  Claim C10.  The loop of \<open>learn_language\<close> tests convergence against the fixed
  threshold \<open>0.02\<close> on every iteration: from any loop state (any counter), the loop
  returns at once, leaving the learner and the random source as they are, exactly when
  the weights are converged at \<open>0.02\<close>.  \<open>learn_language\<close> takes the learner, the language
  and the iteration cap only, so no caller supplies another threshold.
\<close>

theorem harness_threshold_is_fixed:
  "(learn_loop target_language iterations l r counter = Some (l, Inr counter, r))
     = converged (weights l) (2 / 100)
   \<and> (learn_language l target_language iterations r = Some (l, Inr 0, r))
     = converged (weights l) (2 / 100)"
  using learn_loop_returns_at_once [of target_language iterations l r counter]
    learn_loop_returns_at_once [of target_language iterations l r 0]
  by (simp only: learn_language_def simp_thms)

theorem harness_threshold_is_fixed_witness:
  "converged (weights ((new_learner RewardOnlyLearner example_domain)
                         \<lparr>weights := replicate 13 (99 / 100)\<rparr>)) (2 / 100)
   \<and> learn_language ((new_learner RewardOnlyLearner example_domain)
                         \<lparr>weights := replicate 13 (99 / 100)\<rparr>) [1, 2] 5 zero_rng
     = Some ((new_learner RewardOnlyLearner example_domain)
               \<lparr>weights := replicate 13 (99 / 100)\<rparr>, Inr 0, zero_rng)
   \<and> \<not> converged (weights (new_learner RewardOnlyLearner example_domain)) (2 / 100)
   \<and> learn_language (new_learner RewardOnlyLearner example_domain) [1, 2] 5 zero_rng
     \<noteq> Some (new_learner RewardOnlyLearner example_domain, Inr 0, zero_rng)"
proof -
  let ?l = "new_learner RewardOnlyLearner example_domain"
  have a: "converged (weights (?l\<lparr>weights := replicate 13 (99 / 100)\<rparr>)) (2 / 100)"
    by code_simp
  have b: "\<not> converged (weights ?l) (2 / 100)"
    by code_simp
  from harness_threshold_is_fixed [of "[1, 2]" 5 "?l\<lparr>weights := replicate 13 (99 / 100)\<rparr>" zero_rng 0]
    harness_threshold_is_fixed [of "[1, 2]" 5 ?l zero_rng 0] a b
  show ?thesis by blast
qed

lemma learn_loop_count:
  assumes "learn_loop t n l r c = Some (l', Inr k, r')" and "c \<le> n"
  shows "c \<le> k \<and> k \<le> n
       \<and> (pcount r' = pcount r + nat (k - c)
           \<or> (k = n \<and> pcount r' = pcount r + nat (k - c) + 1))"
  using assms
proof (induction t n l r c rule: learn_loop.induct)
  case (1 t n l r c)
  show ?case
  proof (cases "converged (weights l) threshold")
    case True
    then show ?thesis using 1(2,3) by simp
  next
    case False
    obtain x r1 where cs: "choose_sentence t r = (x, r1)" by force
    show ?thesis
    proof (cases x)
      case (Inl e)
      then show ?thesis using 1(2) False cs by simp
    next
      case (Inr sentence)
      have p1: "pcount r1 = Suc (pcount r)" using choose_sentence_pcount cs Inr by simp
      show ?thesis
      proof (cases "consume l sentence r1")
        case None
        then show ?thesis using 1(2) False cs Inr by simp
      next
        case (Some y)
        obtain l2 e r2 where y: "y = (l2, e, r2)" by (cases y)
        have p2: "pcount r2 = pcount r1" using consume_pcount Some y by simp
        show ?thesis
        proof (cases e)
          case (Some err)
          then show ?thesis using 1(2) False cs Inr \<open>consume l sentence r1 = Some y\<close> y by simp
        next
          case None
          show ?thesis
          proof (cases "c \<ge> n")
            case True
            then show ?thesis
              using 1(2,3) False cs Inr \<open>consume l sentence r1 = Some y\<close> y None p1 p2 by auto
          next
            case ge: False
            have rec: "learn_loop t n l2 r2 (c + 1) = Some (l', Inr k, r')"
              using 1(2) False cs Inr \<open>consume l sentence r1 = Some y\<close> y None ge by simp
            have c1: "c + 1 \<le> n" using ge by simp
            have ih: "c + 1 \<le> k \<and> k \<le> n
               \<and> (pcount r' = pcount r2 + nat (k - (c + 1))
                   \<or> (k = n \<and> pcount r' = pcount r2 + nat (k - (c + 1)) + 1))"
              by (rule 1(1) [OF False cs [symmetric] Inr \<open>consume l sentence r1 = Some y\<close>
                    y [symmetric] refl None ge rec c1])
            have "nat (k - c) = Suc (nat (k - (c + 1)))" using ih by linarith
            then show ?thesis using ih p1 p2 by auto
          qed
        qed
      qed
    qed
  qed
qed

text \<open>
  With a cap \<open>n \<ge> 0\<close>, a run that returns \<open>k\<close> has \<open>0 \<le> k \<le> n\<close> and has drawn (and
  consumed) either \<open>k\<close> sentences or, only when \<open>k = n\<close>, \<open>k + 1\<close>: never more than
  \<open>n + 1\<close>.
\<close>

theorem learn_language_count:
  assumes "learn_language l target_language n r = Some (l', Inr k, r')" and "0 \<le> n"
  shows "0 \<le> k \<and> k \<le> n
       \<and> (pcount r' = pcount r + nat k \<or> (k = n \<and> pcount r' = pcount r + nat k + 1))"
  using learn_loop_count [of target_language n l r 0 l' k r'] assms
  by (simp add: learn_language_def)

theorem learn_language_count_witness:
  "\<exists>l' r'. learn_language (new_learner RewardOnlyLearner example_domain) [1, 2] 2 zero_rng
             = Some (l', Inr 2, r')
           \<and> pcount r' = pcount zero_rng + nat 2 + 1"
proof -
  have "map_option (\<lambda>(l, res, r). (res, pcount r))
     (learn_language (new_learner RewardOnlyLearner example_domain) [1, 2] 2 zero_rng)
     = Some (Inr 2, 3)"
    by code_simp
  then obtain l' r' where
    run: "learn_language (new_learner RewardOnlyLearner example_domain) [1, 2] 2 zero_rng
            = Some (l', Inr 2, r')"
    and p: "pcount r' = 3"
    by (cases "learn_language (new_learner RewardOnlyLearner example_domain) [1, 2] 2 zero_rng")
      auto
  have z: "pcount zero_rng = 0" by (simp add: zero_rng_def)
  from learn_language_count [OF run] p z
  have "pcount r' = pcount zero_rng + nat 2 + 1" by simp
  then show ?thesis using run by blast
qed

text \<open>
  Claim C5.  \<open>learn_language\<close> is claimed to return the number of sentences consumed.
  A fresh learner that does not converge, with cap 0, draws and consumes one sentence
  and returns 0; with cap 2 it consumes three and returns 2: the \<open>break\<close> comes before
  \<open>counter += 1\<close>.  (\<open>pcount\<close> of the final random source is the number of sentences
  drawn, each of which was consumed.)
\<close>

theorem learn_language_returns_cap_at_cap:
  "map_option (\<lambda>(l, res, r). (res, pcount r))
     (learn_language (new_learner RewardOnlyLearner example_domain) [1, 2] 0 zero_rng)
     = Some (Inr 0, 1)
   \<and> map_option (\<lambda>(l, res, r). (res, pcount r))
     (learn_language (new_learner RewardOnlyLearner example_domain) [1, 2] 2 zero_rng)
     = Some (Inr 2, 3)"
  by code_simp










end
